theory Spec2Isabelle
  imports Main "HOL-Library.Word"
begin

section \<open>Images, the object store and the imaging library's operations\<close>

text \<open>
  The layout engine of \<^verbatim>\<open>pil_css.py\<close> works on image objects of a raster library.
  An image object has a width, a height and RGBA pixels of four bytes each. Image
  objects are shared by reference and \<^verbatim>\<open>paste\<close> mutates its receiver in place, so the
  model keeps them in a store: a list of images, an object being its index. A new
  object is appended, and no object is ever removed. All images are taken to be of
  mode RGBA, the mode every helper of the module creates.
\<close>

type_synonym pixel = "8 word \<times> 8 word \<times> 8 word \<times> 8 word"

record pil_image =
  width :: int
  height :: int
  pix :: "int \<Rightarrow> int \<Rightarrow> pixel"

type_synonym heap = "pil_image list"

datatype error =
  ValueError string | AssertionError string | ZeroDivisionError string
  | OverflowError string | MemoryError string

text \<open>
  The library's masked paste mixes every byte of the destination (\<open>in1\<close>) with the byte
  of the source (\<open>in2\<close>) in the proportion given by the mask byte, dividing by 255 with
  rounding: mask 255 copies the source, mask 0 keeps the destination.
\<close>

definition blend8 :: "8 word \<Rightarrow> 8 word \<Rightarrow> 8 word \<Rightarrow> 8 word" where
  "blend8 msk in1 in2 =
     (let tmp = unat in1 * (255 - unat msk) + unat in2 * unat msk + 128
      in of_nat ((tmp div 256 + tmp) div 256))"

text \<open>
  Every paste of the module passes the pasted image as its own mask, so the mask byte
  of a pixel is the alpha byte of the source pixel; all four bytes are mixed.
\<close>

fun paste_pixel :: "pixel \<Rightarrow> pixel \<Rightarrow> pixel" where
  "paste_pixel (r1, g1, b1, a1) (r2, g2, b2, a2) =
     (blend8 a2 r1 r2, blend8 a2 g1 g2, blend8 a2 b1 b2, blend8 a2 a1 a2)"

text \<open>
  \<^verbatim>\<open>dst.paste(src, (x0, y0), src)\<close> on image values: the source rectangle is clipped to
  the destination, whose size never changes. The offset is taken to lie within the C
  integers of the library, which refuses any other, and the pasted image to be another
  object than the receiver: pasting an image onto itself, the library reads pixels that
  it has already written.
\<close>

definition paste_image :: "pil_image \<Rightarrow> pil_image \<Rightarrow> int \<times> int \<Rightarrow> pil_image" where
  "paste_image dst src box =
     (case box of (x0, y0) \<Rightarrow>
        dst\<lparr>pix := (\<lambda>x y.
          if 0 \<le> x \<and> x < width dst \<and> 0 \<le> y \<and> y < height dst
             \<and> x0 \<le> x \<and> x < x0 + width src \<and> y0 \<le> y \<and> y < y0 + height src
          then paste_pixel (pix dst x y) (pix src (x - x0) (y - y0))
          else pix dst x y)\<rparr>)"

definition paste :: "heap \<Rightarrow> nat \<Rightarrow> nat \<Rightarrow> int \<times> int \<Rightarrow> heap" where
  "paste h self im box = h[self := paste_image (h ! self) (h ! im) box]"

text \<open>
  \<^verbatim>\<open>Image.new("RGBA", size, color)\<close>: a new object filled with one colour. The library
  refuses a negative width or height. It then passes both to its C core as C integers,
  which raises an \<^verbatim>\<open>OverflowError\<close> for a value above \<open>INT_MAX\<close> (the text of the message
  depends on the value), and the core refuses a width whose line of four bytes a pixel
  could overflow. Beyond that an allocation fails when the machine has no memory left
  for it; this is outside the model.
\<close>

definition INT_MAX :: int where
  "INT_MAX = 2147483647"

definition Image_new :: "heap \<Rightarrow> int \<times> int \<Rightarrow> pixel \<Rightarrow> (error + nat) \<times> heap" where
  "Image_new h sz color =
     (case sz of (w, ht) \<Rightarrow>
        if w < 0 \<or> ht < 0 then (Inl (ValueError ''Width and height must be >= 0''), h)
        else if w > INT_MAX \<or> ht > INT_MAX then
          (Inl (OverflowError ''signed integer is greater than maximum''), h)
        else if w > INT_MAX div 4 - 1 then (Inl (MemoryError []), h)
        else (Inr (length h), h @ [\<lparr>width = w, height = ht, pix = (\<lambda>x y. color)\<rparr>]))"

section \<open>The helpers \<^verbatim>\<open>add_padding\<close> and \<open>position_relative\<close>\<close>

text \<open>
  Each branch of \<^verbatim>\<open>add_padding\<close> creates a new image and pastes the input into it at
  an offset; \<open>new_and_paste\<close> is that pair of statements.
\<close>

definition new_and_paste ::
  "heap \<Rightarrow> nat \<Rightarrow> int \<times> int \<Rightarrow> pixel \<Rightarrow> int \<times> int \<Rightarrow> (error + nat) \<times> heap" where
  "new_and_paste h im new_size color box =
     (case Image_new h new_size color of
        (Inl e, h1) \<Rightarrow> (Inl e, h1)
      | (Inr new_image, h1) \<Rightarrow> (Inr new_image, paste h1 new_image im box))"

definition add_padding :: "heap \<Rightarrow> nat \<Rightarrow> int \<Rightarrow> string \<Rightarrow> (error + nat) \<times> heap" where
  "add_padding h im padding type =
     (let w = width (h ! im); ht = height (h ! im) in
      if type = ''all'' then
        new_and_paste h im (w + 2 * padding, ht + 2 * padding) (0, 0, 0, 0) (padding, padding)
      else if type = ''left'' then
        new_and_paste h im (w + padding, ht) (0, 0, 0, 0) (padding, 0)
      else if type = ''right'' then
        new_and_paste h im (w + padding, ht) (0, 0, 0, 0) (0, 0)
      else if type = ''top'' then
        new_and_paste h im (w, ht + padding) (0, 0, 0, 0) (0, padding)
      else if type = ''bottom'' then
        new_and_paste h im (w, ht + padding) (0, 0, 0, 0) (0, 0)
      else if type = ''x'' then
        new_and_paste h im (w + padding * 2, ht) (255, 255, 255, 255) (padding, 0)
      else if type = ''y'' then
        new_and_paste h im (w, ht + padding * 2) (255, 255, 255, 255) (0, padding)
      else (Inl (ValueError (''Invalid type: '' @ type)), h))"

text \<open>
  The truth value of an optional integer in a condition: \<^verbatim>\<open>None\<close> and \<^verbatim>\<open>0\<close> are false.
\<close>

fun truthy :: "int option \<Rightarrow> bool" where
  "truthy None = False"
| "truthy (Some v) = (v \<noteq> 0)"

definition position_relative ::
  "heap \<Rightarrow> nat \<Rightarrow> nat \<Rightarrow> int option \<Rightarrow> int option \<Rightarrow> int option \<Rightarrow> int option
     \<Rightarrow> (error + nat) \<times> heap" where
  "position_relative h base im top' bottom left right =
     (if truthy top' \<and> truthy bottom then
        (Inl (ValueError ''Cannot set both top and bottom''), h)
      else if truthy left \<and> truthy right then
        (Inl (ValueError ''Cannot set both left and right''), h)
      else
        let top1 = (if top' = None \<and> bottom = None then Some 0 else top');
            left1 = (if left = None \<and> right = None then Some 0 else left);
            top2 = (case bottom of
                      Some bt \<Rightarrow> Some (height (h ! base) - bt - height (h ! im))
                    | None \<Rightarrow> top1);
            left2 = (case right of
                       Some rt \<Rightarrow> Some (width (h ! base) - rt - width (h ! im))
                     | None \<Rightarrow> left1)
        in case top2 of
             None \<Rightarrow> (Inl (AssertionError ''Top must be set''), h)
           | Some t \<Rightarrow>
               (case left2 of
                  None \<Rightarrow> (Inl (AssertionError ''Left must be set''), h)
                | Some l \<Rightarrow> (Inr base, paste h base im (l, t))))"

section \<open>The class \<^verbatim>\<open>FlexBox\<close>\<close>

text \<open>
  A box holds a reference to its canvas, the size, width and height read from the canvas
  when the box is made, its children in order, its configuration and the flag
  \<^verbatim>\<open>_rendered\<close>. A child is an image object or another box. The configuration
  literals are strings, as in the source, where nothing restricts them to the values
  of their type annotation.
\<close>

datatype box = FlexBox
  (box_image: nat) (box_size: "int \<times> int") (box_width: int) (box_height: int)
  (items: "item list") (padding: int) (gap: int)
  (direction: string) (justify: string) (align_items: string) (flex_wrap: string)
  (allow_resize: bool) (rendered: bool)
and item = Img nat | Sub box

fun set_items :: "item list \<Rightarrow> box \<Rightarrow> box" where
  "set_items its (FlexBox im sz w ht _ pad gp dir js al fw ar rd) =
     FlexBox im sz w ht its pad gp dir js al fw ar rd"

fun set_canvas :: "nat \<Rightarrow> int \<Rightarrow> int \<Rightarrow> box \<Rightarrow> box" where
  "set_canvas im w ht (FlexBox _ sz _ _ its pad gp dir js al fw ar rd) =
     FlexBox im sz w ht its pad gp dir js al fw ar rd"

fun set_rendered :: "bool \<Rightarrow> box \<Rightarrow> box" where
  "set_rendered rd (FlexBox im sz w ht its pad gp dir js al fw ar _) =
     FlexBox im sz w ht its pad gp dir js al fw ar rd"

fun set_allow_resize :: "bool \<Rightarrow> box \<Rightarrow> box" where
  "set_allow_resize ar (FlexBox im sz w ht its pad gp dir js al fw _ rd) =
     FlexBox im sz w ht its pad gp dir js al fw ar rd"

text \<open>\<^verbatim>\<open>FlexBox.__init__\<close> stores its arguments; it checks none of them.\<close>

definition FlexBox_init ::
  "heap \<Rightarrow> nat \<Rightarrow> int \<Rightarrow> int \<Rightarrow> string \<Rightarrow> string \<Rightarrow> string \<Rightarrow> string \<Rightarrow> bool \<Rightarrow> box" where
  "FlexBox_init h im pad gp dir js al fw ar =
     FlexBox im (width (h ! im), height (h ! im)) (width (h ! im)) (height (h ! im))
       [] pad gp dir js al fw ar False"

definition add_items :: "box \<Rightarrow> item list \<Rightarrow> error + box" where
  "add_items b images =
     (if rendered b then Inl (ValueError ''Cannot add items after rendering'')
      else Inr (set_items (items b @ images) b))"

subsection \<open>Step 1: line breaking\<close>

definition item_main :: "heap \<Rightarrow> box \<Rightarrow> nat \<Rightarrow> int" where
  "item_main h b it = (if direction b = ''row'' then width (h ! it) else height (h ! it))"

definition item_cross :: "heap \<Rightarrow> box \<Rightarrow> nat \<Rightarrow> int" where
  "item_cross h b it = (if direction b = ''row'' then height (h ! it) else width (h ! it))"

text \<open>
  The loop over the rendered items, with its three variables \<^verbatim>\<open>lines\<close>,
  \<^verbatim>\<open>current_line\<close> and \<^verbatim>\<open>current_main\<close> as the state.
\<close>

fun line_breaking ::
  "heap \<Rightarrow> box \<Rightarrow> int \<Rightarrow> nat list \<Rightarrow> nat list list \<times> nat list \<times> int
     \<Rightarrow> nat list list \<times> nat list \<times> int" where
  "line_breaking h b container_main [] st = st"
| "line_breaking h b container_main (it # rest) (lines, current_line, current_main) =
     (let required_space = item_main h b it + (if current_line \<noteq> [] then gap b else 0)
      in if flex_wrap b = ''wrap''
            \<and> current_main + required_space > container_main - 2 * padding b
         then line_breaking h b container_main rest
                (lines @ [current_line], [it], item_main h b it)
         else line_breaking h b container_main rest
                (lines, current_line @ [it], current_main + required_space))"

definition break_lines :: "heap \<Rightarrow> box \<Rightarrow> nat list \<Rightarrow> nat list list" where
  "break_lines h b rendered_items =
     (let container_main = (if direction b = ''row'' then box_width b else box_height b)
      in case line_breaking h b container_main rendered_items ([], [], 0) of
           (lines, current_line, current_main) \<Rightarrow>
             if current_line \<noteq> [] then lines @ [current_line] else lines)"

subsection \<open>Cross extent and growth of the canvas\<close>

text \<open>
  \<^verbatim>\<open>max\<close> of an empty sequence raises a \<^verbatim>\<open>ValueError\<close>. The text of its message
  differs between versions of the interpreter; no caller reads it.
\<close>

fun py_max :: "int list \<Rightarrow> error + int" where
  "py_max [] = Inl (ValueError ''max() arg is an empty sequence'')"
| "py_max (x # xs) = Inr (fold max xs x)"

fun total_max_of :: "heap \<Rightarrow> box \<Rightarrow> nat list list \<Rightarrow> error + int" where
  "total_max_of h b [] = Inr 0"
| "total_max_of h b (line # rest) =
     (case py_max (map (item_cross h b) line) of
        Inl e \<Rightarrow> Inl e
      | Inr m \<Rightarrow>
          (case total_max_of h b rest of
             Inl e \<Rightarrow> Inl e
           | Inr t \<Rightarrow> Inr (m + gap b + t)))"

definition grow_canvas :: "heap \<Rightarrow> box \<Rightarrow> int \<Rightarrow> error option \<times> heap \<times> box" where
  "grow_canvas h b total_max =
     (if total_max > box_height b then
        (case add_padding h (box_image b)
                (total_max - (if direction b = ''row'' then box_height b else box_width b)
                   + padding b * 2)
                (if direction b = ''row'' then ''bottom'' else ''right'') of
           (Inl e, h1) \<Rightarrow> (Some e, h1, b)
         | (Inr new_image, h1) \<Rightarrow>
             (None, h1,
              set_canvas new_image (width (h1 ! new_image)) (height (h1 ! new_image)) b))
      else (None, h, b))"

subsection \<open>Step 2: justification and placement\<close>

text \<open>
  The start of the main cursor and the gap of one line. The source computes them after
  the \<^verbatim>\<open>max\<close> over the line, so a line that reaches this point is not empty; the
  division by the number of items is still written with its failure.
\<close>

definition justify_line :: "heap \<Rightarrow> box \<Rightarrow> nat list \<Rightarrow> error + int \<times> int" where
  "justify_line h b line =
     (let total_main_size = sum_list (map (item_main h b) line);
          num_items = int (length line);
          main_dim = (if direction b = ''row'' then box_width b else box_height b);
          total_gap_space = main_dim - 2 * padding b - total_main_size
      in if justify b = ''start'' then Inr (padding b, gap b)
         else if justify b = ''end'' then
           Inr (main_dim - padding b - total_main_size - gap b * (num_items - 1), gap b)
         else if justify b = ''center'' then
           Inr (padding b + (total_gap_space - gap b * (num_items - 1)) div 2, gap b)
         else if justify b = ''space-between'' \<and> num_items > 1 then
           Inr (padding b, total_gap_space div (num_items - 1))
         else if justify b = ''space-around'' then
           (if num_items = 0 then Inl (ZeroDivisionError ''integer division or modulo by zero'')
            else Inr (padding b + (total_gap_space div num_items) div 2,
                      total_gap_space div num_items))
         else if justify b = ''space-evenly'' then
           Inr (padding b + total_gap_space div (num_items + 1),
                total_gap_space div (num_items + 1))
         else Inr (padding b, gap b))"

text \<open>The loop over the items of one line: every item is pasted onto the canvas.\<close>

fun paste_line ::
  "heap \<Rightarrow> box \<Rightarrow> int \<Rightarrow> int \<Rightarrow> int \<Rightarrow> int \<Rightarrow> nat list \<Rightarrow> int \<Rightarrow> heap" where
  "paste_line h b alignment_offset cross_cursor max_cross gp [] main_cursor = h"
| "paste_line h b alignment_offset cross_cursor max_cross gp (it # rest) main_cursor =
     (if direction b = ''row'' then
        let cross =
              (if align_items b = ''center'' then
                 cross_cursor + (alignment_offset + (max_cross - height (h ! it))) div 2
               else if align_items b = ''end'' then
                 cross_cursor + (alignment_offset + (max_cross - height (h ! it)))
               else cross_cursor);
            h1 = paste h (box_image b) it (main_cursor, cross)
        in paste_line h1 b alignment_offset cross_cursor max_cross gp rest
             (main_cursor + (width (h1 ! it) + gp))
      else
        let cross =
              (if align_items b = ''center'' then
                 cross_cursor + (alignment_offset + (max_cross - width (h ! it))) div 2
               else if align_items b = ''end'' then
                 cross_cursor + (alignment_offset + (max_cross - width (h ! it)))
               else cross_cursor);
            h1 = paste h (box_image b) it (cross, main_cursor)
        in paste_line h1 b alignment_offset cross_cursor max_cross gp rest
             (main_cursor + (height (h1 ! it) + gp)))"

fun render_lines ::
  "heap \<Rightarrow> box \<Rightarrow> int \<Rightarrow> int \<Rightarrow> nat list list \<Rightarrow> error option \<times> heap" where
  "render_lines h b alignment_offset cross_cursor [] = (None, h)"
| "render_lines h b alignment_offset cross_cursor (line # rest) =
     (case py_max (map (item_cross h b) line) of
        Inl e \<Rightarrow> (Some e, h)
      | Inr max_cross \<Rightarrow>
          (case justify_line h b line of
             Inl e \<Rightarrow> (Some e, h)
           | Inr (main_cursor, gp) \<Rightarrow>
               render_lines
                 (paste_line h b alignment_offset cross_cursor max_cross gp line main_cursor)
                 b alignment_offset (cross_cursor + (max_cross + gap b)) rest))"

subsection \<open>\<^verbatim>\<open>FlexBox.render\<close>\<close>

text \<open>
  \<open>layout\<close> is the body of \<^verbatim>\<open>render\<close> from the line breaking on, given the flattened
  children. It returns the result or the error raised, the store and the box as they
  are at that moment.
\<close>

definition layout :: "heap \<Rightarrow> box \<Rightarrow> nat list \<Rightarrow> (error + nat) \<times> heap \<times> box" where
  "layout h b rendered_items =
     (let lines = break_lines h b rendered_items
      in case total_max_of h b lines of
           Inl e \<Rightarrow> (Inl e, h, b)
         | Inr total_max \<Rightarrow>
             (case grow_canvas h b total_max of
                (Some e, h1, b1) \<Rightarrow> (Inl e, h1, b1)
              | (None, h1, b1) \<Rightarrow>
                  (let alignment_offset =
                         (if direction b1 = ''row'' then box_height b1 else box_width b1)
                           - total_max
                   in (case render_lines h1 b1 alignment_offset (padding b1) lines of
                         (Some e, h2) \<Rightarrow> (Inl e, h2, b1)
                       | (None, h2) \<Rightarrow>
                           (Inr (box_image b1), h2, set_rendered True b1)))))"

text \<open>
  \<^verbatim>\<open>render\<close> and its first loop, which renders the nested boxes in order. An exception
  raised by a child ends the loop and the call; what was rendered before stays rendered.
\<close>

fun render :: "heap \<Rightarrow> box \<Rightarrow> (error + nat) \<times> heap \<times> box"
and render_items :: "heap \<Rightarrow> item list \<Rightarrow> (error + nat list) \<times> heap \<times> item list" where
  "render h (FlexBox im sz w ht its pad gp dir js al fw ar rd) =
     (if rd then (Inr im, h, FlexBox im sz w ht its pad gp dir js al fw ar rd)
      else if its = [] then (Inr im, h, FlexBox im sz w ht its pad gp dir js al fw ar rd)
      else
        (case render_items h its of
           (Inl e, h1, its1) \<Rightarrow> (Inl e, h1, FlexBox im sz w ht its1 pad gp dir js al fw ar rd)
         | (Inr rendered_items, h1, its1) \<Rightarrow>
             layout h1 (FlexBox im sz w ht its1 pad gp dir js al fw ar rd) rendered_items))"
| "render_items h [] = (Inr [], h, [])"
| "render_items h (Img a # rest) =
     (case render_items h rest of
        (Inl e, h1, rest1) \<Rightarrow> (Inl e, h1, Img a # rest1)
      | (Inr ris, h1, rest1) \<Rightarrow> (Inr (a # ris), h1, Img a # rest1))"
| "render_items h (Sub b # rest) =
     (case render h b of
        (Inl e, h1, b1) \<Rightarrow> (Inl e, h1, Sub b1 # rest)
      | (Inr a, h1, b1) \<Rightarrow>
          (case render_items h1 rest of
             (Inl e, h2, rest1) \<Rightarrow> (Inl e, h2, Sub b1 # rest1)
           | (Inr ris, h2, rest1) \<Rightarrow> (Inr (a # ris), h2, Sub b1 # rest1)))"

section \<open>Inputs and tables used in the statements\<close>

text \<open>An image of one colour, for the concrete inputs of the theorems below.\<close>

definition solid :: "int \<Rightarrow> int \<Rightarrow> pixel \<Rightarrow> pil_image" where
  "solid w ht c = \<lparr>width = w, height = ht, pix = (\<lambda>x y. c)\<rparr>"

text \<open>
  The edges \<^verbatim>\<open>add_padding\<close> knows, and, in the words of its description, the size of the
  result, the offset of the original content and the colour of the new space.
\<close>

definition padding_types :: "string list" where
  "padding_types = [''all'', ''left'', ''right'', ''top'', ''bottom'', ''x'', ''y'']"

definition padded_size :: "string \<Rightarrow> int \<Rightarrow> int \<times> int \<Rightarrow> int \<times> int" where
  "padded_size t n sz =
     (case sz of (w, ht) \<Rightarrow>
        if t = ''all'' then (w + 2 * n, ht + 2 * n)
        else if t = ''x'' then (w + 2 * n, ht)
        else if t = ''y'' then (w, ht + 2 * n)
        else if t = ''left'' \<or> t = ''right'' then (w + n, ht)
        else (w, ht + n))"

definition padded_offset :: "string \<Rightarrow> int \<Rightarrow> int \<times> int" where
  "padded_offset t n =
     (if t = ''all'' then (n, n)
      else if t = ''left'' \<or> t = ''x'' then (n, 0)
      else if t = ''top'' \<or> t = ''y'' then (0, n)
      else (0, 0))"

definition padded_fill :: "string \<Rightarrow> pixel" where
  "padded_fill t = (if t = ''x'' \<or> t = ''y'' then (255, 255, 255, 255) else (0, 0, 0, 0))"

section \<open>Boxes that are laid out alike\<close>

text \<open>
  The setters of the remaining configuration attributes, used to state what \<^verbatim>\<open>render\<close>
  does with a literal it does not know.
\<close>

fun set_direction :: "string \<Rightarrow> box \<Rightarrow> box" where
  "set_direction dir (FlexBox im sz w ht its pad gp _ js al fw ar rd) =
     FlexBox im sz w ht its pad gp dir js al fw ar rd"

fun set_justify :: "string \<Rightarrow> box \<Rightarrow> box" where
  "set_justify js (FlexBox im sz w ht its pad gp dir _ al fw ar rd) =
     FlexBox im sz w ht its pad gp dir js al fw ar rd"

fun set_align_items :: "string \<Rightarrow> box \<Rightarrow> box" where
  "set_align_items al (FlexBox im sz w ht its pad gp dir js _ fw ar rd) =
     FlexBox im sz w ht its pad gp dir js al fw ar rd"

fun set_flex_wrap :: "string \<Rightarrow> box \<Rightarrow> box" where
  "set_flex_wrap fw (FlexBox im sz w ht its pad gp dir js al _ ar rd) =
     FlexBox im sz w ht its pad gp dir js al fw ar rd"

definition justify_literals :: "string list" where
  "justify_literals =
     [''start'', ''end'', ''center'', ''space-between'', ''space-around'', ''space-evenly'']"

text \<open>
  \<^verbatim>\<open>render\<close> reads the canvas, the recorded width and height, the children, the padding,
  the gap and the flag, and it compares the direction with \<open>row\<close>, the alignment with
  \<open>center\<close> and \<open>end\<close>, the wrap mode with \<open>wrap\<close> and the justification with five of
  its six literals. Two boxes that agree on all of this are laid out alike.
\<close>

definition same_layout :: "box \<Rightarrow> box \<Rightarrow> bool" where
  "same_layout b b' =
     (box_image b' = box_image b \<and> box_width b' = box_width b \<and> box_height b' = box_height b
      \<and> items b' = items b \<and> padding b' = padding b \<and> gap b' = gap b
      \<and> rendered b' = rendered b
      \<and> (direction b' = ''row'') = (direction b = ''row'')
      \<and> (align_items b' = ''center'') = (align_items b = ''center'')
      \<and> (align_items b' = ''end'') = (align_items b = ''end'')
      \<and> (flex_wrap b' = ''wrap'') = (flex_wrap b = ''wrap'')
      \<and> (justify b' = ''end'') = (justify b = ''end'')
      \<and> (justify b' = ''center'') = (justify b = ''center'')
      \<and> (justify b' = ''space-between'') = (justify b = ''space-between'')
      \<and> (justify b' = ''space-around'') = (justify b = ''space-around'')
      \<and> (justify b' = ''space-evenly'') = (justify b = ''space-evenly''))"

text \<open>
  \<open>transfer b1 b'\<close> is the box \<open>b'\<close> with the attributes that \<^verbatim>\<open>render\<close> assigns (the canvas
  with its width and height, the children, the flag) taken from \<open>b1\<close>.
\<close>

definition transfer :: "box \<Rightarrow> box \<Rightarrow> box" where
  "transfer b1 b' =
     set_items (items b1) (set_rendered (rendered b1)
       (set_canvas (box_image b1) (box_width b1) (box_height b1) b'))"

text \<open>
  The canvases of a box: its own and those of the boxes nested in it. They are the
  receivers of the pastes of \<^verbatim>\<open>render\<close>.
\<close>

fun canvases :: "box \<Rightarrow> nat list" and item_canvases :: "item \<Rightarrow> nat list" where
  "canvases (FlexBox im sz w ht its pad gp dir js al fw ar rd) =
     im # concat (map item_canvases its)"
| "item_canvases (Img a) = []"
| "item_canvases (Sub b) = canvases b"

text \<open>
  An input with a nested box: a canvas 10 by 10, the canvas 4 by 4 of the nested box and
  a red image 2 by 2, which is the only child of the nested box.
\<close>

definition nested_store :: heap where
  "nested_store =
     [solid 10 10 (0, 0, 0, 0), solid 4 4 (0, 0, 0, 0), solid 2 2 (255, 0, 0, 255)]"

definition nested_inner :: "bool \<Rightarrow> box" where
  "nested_inner rd =
     FlexBox 1 (4, 4) 4 4 [Img 2] 0 0 ''row'' ''start'' ''start'' ''wrap'' True rd"

definition nested_outer :: "nat \<Rightarrow> box" where
  "nested_outer second_child =
     FlexBox 0 (10, 10) 10 10 [Sub (nested_inner False), Img second_child]
       0 0 ''row'' ''start'' ''start'' ''wrap'' True False"

section \<open>The imaging library's paste\<close>

lemma div255: "n < 256 \<Longrightarrow> ((n * 255 + 128) div 256 + (n * 255 + 128)) div 256 = (n::nat)"
  by arith

lemma unat_byte: "unat (w :: 8 word) < 256"
  using unsigned_less [of w, where ?'a = nat] by simp

lemma blend8_255: "blend8 255 d s = s"
  unfolding blend8_def Let_def using unat_byte [of s] by (simp add: div255)

lemma blend8_0: "blend8 0 d s = d"
  unfolding blend8_def Let_def using unat_byte [of d] by (simp add: div255)

lemma paste_pixel_opaque: "paste_pixel d (r, g, b, 255) = (r, g, b, 255)"
  by (cases d) (simp add: blend8_255)

lemma paste_pixel_transparent: "paste_pixel d (r, g, b, 0) = d"
  by (cases d) (simp add: blend8_0)

lemma add_padding_eq:
  assumes t: "t \<in> set padding_types"
    and sz: "0 \<le> fst (padded_size t n (width (h ! im), height (h ! im)))"
            "fst (padded_size t n (width (h ! im), height (h ! im))) \<le> INT_MAX div 4 - 1"
            "0 \<le> snd (padded_size t n (width (h ! im), height (h ! im)))"
            "snd (padded_size t n (width (h ! im), height (h ! im))) \<le> INT_MAX"
    and im: "im < length h"
  shows "add_padding h im n t =
     (Inr (length h),
      h @ [paste_image \<lparr>width = fst (padded_size t n (width (h ! im), height (h ! im))),
                         height = snd (padded_size t n (width (h ! im), height (h ! im))),
                         pix = (\<lambda>x y. padded_fill t)\<rparr> (h ! im) (padded_offset t n)])"
proof -
  have "t = ''all'' \<or> t = ''left'' \<or> t = ''right'' \<or> t = ''top'' \<or> t = ''bottom''
        \<or> t = ''x'' \<or> t = ''y''"
    using t by (simp add: padding_types_def)
  then show ?thesis
    using sz im
    by (elim disjE)
       (simp_all add: add_padding_def new_and_paste_def Image_new_def paste_def INT_MAX_def
          padded_size_def padded_offset_def padded_fill_def nth_append Let_def mult.commute)
qed

text \<open>
  When \<^verbatim>\<open>add_padding\<close> returns, the edge is one it knows and the library has accepted the
  enlarged size.
\<close>

lemma new_and_paste_Inr:
  assumes "new_and_paste h im (w, ht) c box = (Inr a, h1)"
  shows "0 \<le> w \<and> w \<le> INT_MAX div 4 - 1 \<and> 0 \<le> ht \<and> ht \<le> INT_MAX"
  using assms by (simp add: new_and_paste_def Image_new_def INT_MAX_def split: if_splits)

lemma add_padding_Inr:
  assumes "add_padding h im n t = (Inr a, h1)"
  shows "t \<in> set padding_types"
    and "0 \<le> fst (padded_size t n (width (h ! im), height (h ! im)))"
    and "fst (padded_size t n (width (h ! im), height (h ! im))) \<le> INT_MAX div 4 - 1"
    and "0 \<le> snd (padded_size t n (width (h ! im), height (h ! im)))"
    and "snd (padded_size t n (width (h ! im), height (h ! im))) \<le> INT_MAX"
proof -
  show t: "t \<in> set padding_types"
  proof (rule ccontr)
    assume "t \<notin> set padding_types"
    then have "add_padding h im n t = (Inl (ValueError (''Invalid type: '' @ t)), h)"
      by (simp add: add_padding_def padding_types_def Let_def)
    with assms show False by simp
  qed
  then have cases: "t = ''all'' \<or> t = ''left'' \<or> t = ''right'' \<or> t = ''top''
        \<or> t = ''bottom'' \<or> t = ''x'' \<or> t = ''y''"
    by (simp add: padding_types_def)
  have "0 \<le> fst (padded_size t n (width (h ! im), height (h ! im)))
      \<and> fst (padded_size t n (width (h ! im), height (h ! im))) \<le> INT_MAX div 4 - 1
      \<and> 0 \<le> snd (padded_size t n (width (h ! im), height (h ! im)))
      \<and> snd (padded_size t n (width (h ! im), height (h ! im))) \<le> INT_MAX"
    using cases assms
    apply (elim disjE)
          apply (simp_all add: add_padding_def Let_def padded_size_def)
          apply (drule new_and_paste_Inr, simp add: mult.commute)+
    done
  then show "0 \<le> fst (padded_size t n (width (h ! im), height (h ! im)))"
    and "fst (padded_size t n (width (h ! im), height (h ! im))) \<le> INT_MAX div 4 - 1"
    and "0 \<le> snd (padded_size t n (width (h ! im), height (h ! im)))"
    and "snd (padded_size t n (width (h ! im), height (h ! im))) \<le> INT_MAX"
    by simp_all
qed

section \<open>\<^verbatim>\<open>add_padding\<close>\<close>

text \<open>
  Claim C9, as amended. When \<^verbatim>\<open>add_padding\<close> returns, which takes an edge it knows and
  an enlarged width and height that are not negative and fit the C integers of the
  library, it returns a new image of the enlarged size and leaves every existing image,
  the input among them, as it was. Outside the rectangle of the original content the new
  image has the fill colour (transparent, opaque white for \<open>x\<close> and \<open>y\<close>); inside it every
  pixel is the original pixel pasted over the fill colour with its own alpha as the
  mask: the original pixel where it is fully opaque, the fill colour where it is fully
  transparent.
\<close>

theorem add_padding_composites:
  assumes ret: "add_padding h im n t = (Inr a, h1)" and im: "im < length h"
    and sz: "padded_size t n (width (h ! im), height (h ! im)) = (w', h')"
    and off: "padded_offset t n = (ox, oy)"
  shows "t \<in> set padding_types \<and> 0 \<le> w' \<and> w' \<le> INT_MAX \<and> 0 \<le> h' \<and> h' \<le> INT_MAX
       \<and> a = length h
       \<and> take (length h) h1 = h
       \<and> length h1 = Suc (length h)
       \<and> width (h1 ! a) = w'
       \<and> height (h1 ! a) = h'
       \<and> pix (h1 ! a) x y =
           (if 0 \<le> x \<and> x < w' \<and> 0 \<le> y \<and> y < h'
               \<and> ox \<le> x \<and> x < ox + width (h ! im) \<and> oy \<le> y \<and> y < oy + height (h ! im)
            then paste_pixel (padded_fill t) (pix (h ! im) (x - ox) (y - oy))
            else padded_fill t)
       \<and> paste_pixel (padded_fill t) (r, g, b, 255) = (r, g, b, 255)
       \<and> paste_pixel (padded_fill t) (r, g, b, 0) = padded_fill t"
proof -
  note b = add_padding_Inr [OF ret]
  have wide: "w' \<le> INT_MAX"
    using b(3) sz by (simp add: INT_MAX_def)
  from add_padding_eq [OF b im] ret
  have "a = length h"
    and "h1 = h @ [paste_image \<lparr>width = w', height = h', pix = (\<lambda>x y. padded_fill t)\<rparr>
                     (h ! im) (ox, oy)]"
    using sz off by simp_all
  then show ?thesis
    using b sz wide
    by (simp add: paste_image_def paste_pixel_opaque paste_pixel_transparent)
qed

theorem add_padding_composites_witness:
  "add_padding [solid 1 1 (0, 0, 0, 0)] 0 1 ''x''
     = (Inr 1, paste [solid 1 1 (0, 0, 0, 0), solid 3 1 (255, 255, 255, 255)] 1 0 (1, 0))
   \<and> (0::nat) < length [solid 1 1 (0, 0, 0, 0)]
   \<and> padded_size ''x'' 1 (1, 1) = (3, 1)
   \<and> padded_offset ''x'' 1 = (1, 0)
   \<and> width (paste [solid 1 1 (0, 0, 0, 0), solid 3 1 (255, 255, 255, 255)] 1 0 (1, 0) ! 1) = 3
   \<and> pix (paste [solid 1 1 (0, 0, 0, 0), solid 3 1 (255, 255, 255, 255)] 1 0 (1, 0) ! 1) 1 0
       = (255, 255, 255, 255)"
proof -
  have eq: "add_padding [solid 1 1 (0, 0, 0, 0)] 0 1 ''x''
     = (Inr 1, paste [solid 1 1 (0, 0, 0, 0), solid 3 1 (255, 255, 255, 255)] 1 0 (1, 0))"
    by (simp add: add_padding_def new_and_paste_def Image_new_def INT_MAX_def solid_def)
  from add_padding_composites [OF eq, where w' = 3 and h' = 1 and ox = 1 and oy = 0
      and x = 1 and y = 0 and r = 0 and g = 0 and b = 0]
  show ?thesis
    using eq
    by (simp add: solid_def padded_size_def padded_offset_def padded_fill_def
        paste_pixel_transparent)
qed

text \<open>
  Claim C9 as stated fails: padding a fully transparent pixel on \<open>x\<close> gives an opaque white
  pixel at the offset, not the original one.
\<close>

theorem add_padding_x_counterexample:
  "fst (add_padding [solid 1 1 (0, 0, 0, 0)] 0 1 ''x'') = Inr 1
   \<and> pix ([solid 1 1 (0, 0, 0, 0)] ! 0) 0 0 = (0, 0, 0, 0)
   \<and> pix (snd (add_padding [solid 1 1 (0, 0, 0, 0)] 0 1 ''x'') ! 1) 1 0 = (255, 255, 255, 255)
   \<and> pix (snd (add_padding [solid 1 1 (0, 0, 0, 0)] 0 1 ''x'') ! 1) 1 0
       \<noteq> pix ([solid 1 1 (0, 0, 0, 0)] ! 0) 0 0"
  by (simp add: add_padding_def new_and_paste_def Image_new_def INT_MAX_def paste_def
      paste_image_def solid_def blend8_0)

section \<open>\<^verbatim>\<open>position_relative\<close>\<close>

text \<open>
  Claim C7 at the input \<open>top = 0\<close>, \<open>bottom = 5\<close>: both are given, and the call does not
  fail; it pastes the image at \<open>(0, 10 - 5 - 2)\<close> and changes the base image.
\<close>

theorem position_relative_top_zero:
  "position_relative [solid 10 10 (0, 0, 0, 0), solid 2 2 (255, 0, 0, 255)] 0 1
      (Some 0) (Some 5) None None
    = (Inr 0, paste [solid 10 10 (0, 0, 0, 0), solid 2 2 (255, 0, 0, 255)] 0 1 (0, 3))
   \<and> pix (snd (position_relative [solid 10 10 (0, 0, 0, 0), solid 2 2 (255, 0, 0, 255)] 0 1
                 (Some 0) (Some 5) None None) ! 0) 0 3 = (255, 0, 0, 255)
   \<and> pix ([solid 10 10 (0, 0, 0, 0), solid 2 2 (255, 0, 0, 255)] ! 0) 0 3 = (0, 0, 0, 0)"
  by (simp add: position_relative_def solid_def paste_def paste_image_def blend8_255)

section \<open>Evaluating \<^verbatim>\<open>render\<close> on concrete inputs\<close>

lemmas eval_defs = layout_def break_lines_def grow_canvas_def justify_line_def item_main_def
  item_cross_def solid_def Let_def FlexBox_init_def add_items_def

section \<open>Line breaking\<close>

text \<open>
  Claim C1 at a box in wrap mode with a 10 by 10 canvas whose first and only child is
  20 wide. The claim says that the oversized child is still produced as a line of its
  own and placed. The loop closes the current line before it starts the line of the
  child, and at the first child the current line is empty: the lines are \<open>[[], [1]]\<close>,
  \<^verbatim>\<open>max\<close> over the empty line raises, and \<^verbatim>\<open>render\<close> ends with that error before
  anything is pasted. The flush after the loop tests \<^verbatim>\<open>if current_line\<close>; the push inside
  the loop does not.
\<close>

theorem render_oversized_first_child:
  "add_items (FlexBox_init [solid 10 10 (0, 0, 0, 0), solid 20 5 (255, 0, 0, 255)] 0 0 0
                ''row'' ''start'' ''start'' ''wrap'' True) [Img 1]
     = Inr (FlexBox 0 (10, 10) 10 10 [Img 1] 0 0 ''row'' ''start'' ''start'' ''wrap'' True False)
   \<and> break_lines [solid 10 10 (0, 0, 0, 0), solid 20 5 (255, 0, 0, 255)]
        (FlexBox 0 (10, 10) 10 10 [Img 1] 0 0 ''row'' ''start'' ''start'' ''wrap'' True False) [1]
     = [[], [1]]
   \<and> render [solid 10 10 (0, 0, 0, 0), solid 20 5 (255, 0, 0, 255)]
        (FlexBox 0 (10, 10) 10 10 [Img 1] 0 0 ''row'' ''start'' ''start'' ''wrap'' True False)
     = (Inl (ValueError ''max() arg is an empty sequence''),
        [solid 10 10 (0, 0, 0, 0), solid 20 5 (255, 0, 0, 255)],
        FlexBox 0 (10, 10) 10 10 [Img 1] 0 0 ''row'' ''start'' ''start'' ''wrap'' True False)"
  by (simp add: eval_defs)

section \<open>Growth of the canvas\<close>

text \<open>
  Claim C2 at a column box with a canvas 10 wide and 100 high and one child 20 wide and
  5 high. The total cross extent is 20 and exceeds the cross dimension, the width 10, so
  the claim says the canvas grows on the right. The test of the source compares the
  total with the height whatever the direction, 20 is not above 100, and the canvas
  keeps its width of 10: the child is pasted onto it as it is. The amount of the
  growth, two lines below the test, does take the width for a column.
\<close>

theorem render_column_no_growth:
  "total_max_of [solid 10 100 (0, 0, 0, 0), solid 20 5 (255, 0, 0, 255)]
        (FlexBox 0 (10, 100) 10 100 [Img 1] 0 0 ''column'' ''start'' ''start'' ''wrap'' True False)
        (break_lines [solid 10 100 (0, 0, 0, 0), solid 20 5 (255, 0, 0, 255)]
           (FlexBox 0 (10, 100) 10 100 [Img 1] 0 0 ''column'' ''start'' ''start'' ''wrap'' True False)
           [1])
     = Inr 20
   \<and> render [solid 10 100 (0, 0, 0, 0), solid 20 5 (255, 0, 0, 255)]
        (FlexBox 0 (10, 100) 10 100 [Img 1] 0 0 ''column'' ''start'' ''start'' ''wrap'' True False)
     = (Inr 0,
        paste [solid 10 100 (0, 0, 0, 0), solid 20 5 (255, 0, 0, 255)] 0 1 (0, 0),
        FlexBox 0 (10, 100) 10 100 [Img 1] 0 0 ''column'' ''start'' ''start'' ''wrap'' True True)
   \<and> width (paste [solid 10 100 (0, 0, 0, 0), solid 20 5 (255, 0, 0, 255)] 0 1 (0, 0) ! 0) = 10"
  by (simp add: eval_defs paste_def paste_image_def)

section \<open>Justification\<close>

text \<open>
  Claim C3. For a line that is not empty, the start of the main cursor and the gap
  between the items follow the table of the justify modes, with the floor division of
  integers; \<open>space-between\<close> with one item gives what \<open>start\<close> gives. In the instance of
  \<open>space-between\<close> with two items 10 and 20 wide on a canvas 100 wide without padding,
  the gap is 70 (the configured gap of 5 is not used) and the items are pasted at the
  main coordinates 0 and 80.
\<close>

theorem justify_table:
  "(line \<noteq> [] \<longrightarrow>
     (let num_items = int (length line);
          total_main_size = sum_list (map (item_main h b) line);
          container_main = (if direction b = ''row'' then box_width b else box_height b);
          total_gap_space = container_main - 2 * padding b - total_main_size;
          g_around = total_gap_space div num_items;
          g_evenly = total_gap_space div (num_items + 1)
      in (justify b = ''start'' \<longrightarrow> justify_line h b line = Inr (padding b, gap b))
       \<and> (justify b = ''end'' \<longrightarrow> justify_line h b line =
            Inr (container_main - padding b - total_main_size - gap b * (num_items - 1), gap b))
       \<and> (justify b = ''center'' \<longrightarrow> justify_line h b line =
            Inr (padding b + (total_gap_space - gap b * (num_items - 1)) div 2, gap b))
       \<and> (justify b = ''space-between'' \<and> num_items > 1 \<longrightarrow> justify_line h b line =
            Inr (padding b, total_gap_space div (num_items - 1)))
       \<and> (justify b = ''space-around'' \<longrightarrow> justify_line h b line =
            Inr (padding b + g_around div 2, g_around))
       \<and> (justify b = ''space-evenly'' \<longrightarrow> justify_line h b line =
            Inr (padding b + g_evenly, g_evenly))
       \<and> (justify b = ''space-between'' \<and> num_items = 1 \<longrightarrow> justify_line h b line =
            Inr (padding b, gap b))))
   \<and> justify_line
        [solid 100 20 (0, 0, 0, 0), solid 10 10 (255, 0, 0, 255), solid 20 10 (0, 0, 255, 255)]
        (FlexBox 0 (100, 20) 100 20 [Img 1, Img 2] 0 5 ''row'' ''space-between'' ''start''
           ''wrap'' True False) [1, 2] = Inr (0, 70)
   \<and> render
        [solid 100 20 (0, 0, 0, 0), solid 10 10 (255, 0, 0, 255), solid 20 10 (0, 0, 255, 255)]
        (FlexBox 0 (100, 20) 100 20 [Img 1, Img 2] 0 5 ''row'' ''space-between'' ''start''
           ''wrap'' True False)
     = (Inr 0,
        paste (paste [solid 100 20 (0, 0, 0, 0), solid 10 10 (255, 0, 0, 255),
                      solid 20 10 (0, 0, 255, 255)] 0 1 (0, 0)) 0 2 (80, 0),
        FlexBox 0 (100, 20) 100 20 [Img 1, Img 2] 0 5 ''row'' ''space-between'' ''start''
           ''wrap'' True True)"
proof (intro conjI impI)
  assume "line \<noteq> []"
  then show "let num_items = int (length line);
          total_main_size = sum_list (map (item_main h b) line);
          container_main = (if direction b = ''row'' then box_width b else box_height b);
          total_gap_space = container_main - 2 * padding b - total_main_size;
          g_around = total_gap_space div num_items;
          g_evenly = total_gap_space div (num_items + 1)
      in (justify b = ''start'' \<longrightarrow> justify_line h b line = Inr (padding b, gap b))
       \<and> (justify b = ''end'' \<longrightarrow> justify_line h b line =
            Inr (container_main - padding b - total_main_size - gap b * (num_items - 1), gap b))
       \<and> (justify b = ''center'' \<longrightarrow> justify_line h b line =
            Inr (padding b + (total_gap_space - gap b * (num_items - 1)) div 2, gap b))
       \<and> (justify b = ''space-between'' \<and> num_items > 1 \<longrightarrow> justify_line h b line =
            Inr (padding b, total_gap_space div (num_items - 1)))
       \<and> (justify b = ''space-around'' \<longrightarrow> justify_line h b line =
            Inr (padding b + g_around div 2, g_around))
       \<and> (justify b = ''space-evenly'' \<longrightarrow> justify_line h b line =
            Inr (padding b + g_evenly, g_evenly))
       \<and> (justify b = ''space-between'' \<and> num_items = 1 \<longrightarrow> justify_line h b line =
            Inr (padding b, gap b))"
    by (simp add: justify_line_def Let_def)
qed (simp_all add: eval_defs paste_def)

theorem justify_table_witness:
  "[1, 2] \<noteq> ([] :: nat list)
   \<and> justify (FlexBox 0 (100, 20) 100 20 [Img 1, Img 2] 3 5 ''row'' ''space-around'' ''start''
                ''wrap'' True False) = ''space-around''
   \<and> justify_line
        [solid 100 20 (0, 0, 0, 0), solid 10 10 (255, 0, 0, 255), solid 20 10 (0, 0, 255, 255)]
        (FlexBox 0 (100, 20) 100 20 [Img 1, Img 2] 3 5 ''row'' ''space-around'' ''start''
           ''wrap'' True False) [1, 2] = Inr (19, 32)"
  using justify_table [of "[1, 2]"
      "[solid 100 20 (0, 0, 0, 0), solid 10 10 (255, 0, 0, 255), solid 20 10 (0, 0, 255, 255)]"
      "FlexBox 0 (100, 20) 100 20 [Img 1, Img 2] 3 5 ''row'' ''space-around'' ''start''
         ''wrap'' True False"]
  by (simp add: item_main_def solid_def Let_def)

section \<open>Rendering twice, and adding children after rendering\<close>

lemma render_rendered: "rendered b \<Longrightarrow> render h b = (Inr (box_image b), h, b)"
  by (cases b) simp

lemma render_no_items: "items b = [] \<Longrightarrow> render h b = (Inr (box_image b), h, b)"
  by (cases b) simp

lemma layout_Inr:
  assumes "layout h b ris = (Inr a, h', b')"
  shows "rendered b' \<and> a = box_image b'"
proof -
  obtain tm where tm: "total_max_of h b (break_lines h b ris) = Inr tm"
    using assms by (cases "total_max_of h b (break_lines h b ris)") (simp_all add: layout_def)
  obtain r h1 b1 where g: "grow_canvas h b tm = (r, h1, b1)"
    by (cases "grow_canvas h b tm") auto
  have r: "r = None"
    using assms by (cases r) (simp_all add: layout_def tm g)
  obtain r2 h2 where l: "render_lines h1 b1
      ((if direction b1 = ''row'' then box_height b1 else box_width b1) - tm) (padding b1)
      (break_lines h b ris) = (r2, h2)"
    by (cases "render_lines h1 b1
      ((if direction b1 = ''row'' then box_height b1 else box_width b1) - tm) (padding b1)
      (break_lines h b ris)") auto
  have "r2 = None"
    using assms by (cases r2) (simp_all add: layout_def tm g r l)
  then have "b' = set_rendered True b1" "a = box_image b1"
    using assms by (simp_all add: layout_def tm g r l)
  then show ?thesis by (cases b1) simp
qed

text \<open>
  A call of \<^verbatim>\<open>render\<close> that returns gives the canvas of the box, and it leaves the box
  flagged as rendered unless the box has no children, in which case nothing changed.
\<close>

lemma render_Inr:
  assumes "render h b = (Inr a, h', b')"
  shows "a = box_image b' \<and> (rendered b' \<or> (items b = [] \<and> b' = b))"
proof (cases b)
  case (FlexBox im sz w ht its pad gp dir js al fw ar rd)
  show ?thesis
  proof (cases "rd \<or> its = []")
    case True
    have "render h b = (Inr im, h, b)"
      using True unfolding FlexBox by (cases rd) simp_all
    with assms have "a = im" "h' = h" "b' = b" by simp_all
    then show ?thesis using True FlexBox by auto
  next
    case False
    obtain r h1 its1 where ri: "render_items h its = (r, h1, its1)"
      by (cases "render_items h its") auto
    show ?thesis
    proof (cases r)
      case (Inl e)
      then show ?thesis using assms FlexBox False ri by simp
    next
      case (Inr ris)
      then have "layout h1 (FlexBox im sz w ht its1 pad gp dir js al fw ar rd) ris = (Inr a, h', b')"
        using assms FlexBox False ri by simp
      from layout_Inr [OF this] show ?thesis by simp
    qed
  qed
qed

text \<open>
  Claim C4. When \<^verbatim>\<open>render\<close> has returned an image, calling it again on the box as the
  first call left it returns the same image object and changes neither the store, so
  the pixels are the same, nor the box: nothing is computed or painted again. This
  holds for a box with children, which is flagged as rendered, and for a box without.
\<close>

theorem render_idempotent:
  assumes "render h b = (Inr a, h', b')"
  shows "render h' b' = (Inr a, h', b')"
  using render_Inr [OF assms] render_rendered [of b' h'] render_no_items [of b' h'] by auto

theorem render_idempotent_witness:
  "render [solid 10 10 (0, 0, 0, 0), solid 2 2 (255, 0, 0, 255)]
      (FlexBox 0 (10, 10) 10 10 [Img 1] 0 0 ''row'' ''start'' ''start'' ''wrap'' True False)
     = (Inr 0, paste [solid 10 10 (0, 0, 0, 0), solid 2 2 (255, 0, 0, 255)] 0 1 (0, 0),
        FlexBox 0 (10, 10) 10 10 [Img 1] 0 0 ''row'' ''start'' ''start'' ''wrap'' True True)
   \<and> render (paste [solid 10 10 (0, 0, 0, 0), solid 2 2 (255, 0, 0, 255)] 0 1 (0, 0))
      (FlexBox 0 (10, 10) 10 10 [Img 1] 0 0 ''row'' ''start'' ''start'' ''wrap'' True True)
     = (Inr 0, paste [solid 10 10 (0, 0, 0, 0), solid 2 2 (255, 0, 0, 255)] 0 1 (0, 0),
        FlexBox 0 (10, 10) 10 10 [Img 1] 0 0 ''row'' ''start'' ''start'' ''wrap'' True True)"
  using render_idempotent [of "[solid 10 10 (0, 0, 0, 0), solid 2 2 (255, 0, 0, 255)]"
      "FlexBox 0 (10, 10) 10 10 [Img 1] 0 0 ''row'' ''start'' ''start'' ''wrap'' True False" 0
      "paste [solid 10 10 (0, 0, 0, 0), solid 2 2 (255, 0, 0, 255)] 0 1 (0, 0)"
      "FlexBox 0 (10, 10) 10 10 [Img 1] 0 0 ''row'' ''start'' ''start'' ''wrap'' True True"]
  by (simp add: eval_defs)

text \<open>
  Claim C5, as amended. When \<^verbatim>\<open>render\<close> has returned on a box with at least one child,
  the box is flagged as rendered and \<^verbatim>\<open>add_items\<close> raises the error of the wrong order;
  raising, it gives no new state of the box.
\<close>

theorem add_items_after_render:
  assumes "render h b = (Inr a, h', b')" and "items b \<noteq> []"
  shows "rendered b' \<and> add_items b' images = Inl (ValueError ''Cannot add items after rendering'')"
  using render_Inr [OF assms(1)] assms(2) by (simp add: add_items_def)

theorem add_items_after_render_witness:
  "render [solid 10 10 (0, 0, 0, 0), solid 2 2 (255, 0, 0, 255)]
      (FlexBox 0 (10, 10) 10 10 [Img 1] 0 0 ''row'' ''start'' ''start'' ''wrap'' True False)
     = (Inr 0, paste [solid 10 10 (0, 0, 0, 0), solid 2 2 (255, 0, 0, 255)] 0 1 (0, 0),
        FlexBox 0 (10, 10) 10 10 [Img 1] 0 0 ''row'' ''start'' ''start'' ''wrap'' True True)
   \<and> items (FlexBox 0 (10, 10) 10 10 [Img 1] 0 0 ''row'' ''start'' ''start'' ''wrap'' True False)
        \<noteq> []
   \<and> add_items
        (FlexBox 0 (10, 10) 10 10 [Img 1] 0 0 ''row'' ''start'' ''start'' ''wrap'' True True)
        [Img 1]
     = Inl (ValueError ''Cannot add items after rendering'')"
  using add_items_after_render [of "[solid 10 10 (0, 0, 0, 0), solid 2 2 (255, 0, 0, 255)]"
      "FlexBox 0 (10, 10) 10 10 [Img 1] 0 0 ''row'' ''start'' ''start'' ''wrap'' True False" 0
      "paste [solid 10 10 (0, 0, 0, 0), solid 2 2 (255, 0, 0, 255)] 0 1 (0, 0)"
      "FlexBox 0 (10, 10) 10 10 [Img 1] 0 0 ''row'' ''start'' ''start'' ''wrap'' True True"
      "[Img 1]"]
  by (simp add: eval_defs)

text \<open>
  Claim C5 as stated fails for a box without children: \<^verbatim>\<open>render\<close> returns the canvas
  before it reaches the flag, and \<^verbatim>\<open>add_items\<close> then adds the child.
\<close>

theorem add_items_after_empty_render:
  "render [solid 10 10 (0, 0, 0, 0), solid 2 2 (255, 0, 0, 255)]
      (FlexBox_init [solid 10 10 (0, 0, 0, 0), solid 2 2 (255, 0, 0, 255)] 0 0 0
         ''row'' ''start'' ''start'' ''wrap'' True)
     = (Inr 0, [solid 10 10 (0, 0, 0, 0), solid 2 2 (255, 0, 0, 255)],
        FlexBox 0 (10, 10) 10 10 [] 0 0 ''row'' ''start'' ''start'' ''wrap'' True False)
   \<and> add_items (FlexBox 0 (10, 10) 10 10 [] 0 0 ''row'' ''start'' ''start'' ''wrap'' True False)
        [Img 1]
     = Inr (FlexBox 0 (10, 10) 10 10 [Img 1] 0 0 ''row'' ''start'' ''start'' ''wrap'' True False)"
  by (simp add: eval_defs)

section \<open>Attributes that \<^verbatim>\<open>render\<close> does not read\<close>

lemma sel_transfer:
  "box_image (transfer b1 b') = box_image b1" "box_width (transfer b1 b') = box_width b1"
  "box_height (transfer b1 b') = box_height b1" "items (transfer b1 b') = items b1"
  "rendered (transfer b1 b') = rendered b1" "box_size (transfer b1 b') = box_size b'"
  "padding (transfer b1 b') = padding b'" "gap (transfer b1 b') = gap b'"
  "direction (transfer b1 b') = direction b'" "justify (transfer b1 b') = justify b'"
  "align_items (transfer b1 b') = align_items b'" "flex_wrap (transfer b1 b') = flex_wrap b'"
  "allow_resize (transfer b1 b') = allow_resize b'"
  by (cases b'; simp add: transfer_def)+

lemma same_layoutD:
  assumes "same_layout b b'"
  shows "box_image b' = box_image b" "box_width b' = box_width b" "box_height b' = box_height b"
    "items b' = items b" "padding b' = padding b" "gap b' = gap b" "rendered b' = rendered b"
    "(direction b' = ''row'') = (direction b = ''row'')"
    "(align_items b' = ''center'') = (align_items b = ''center'')"
    "(align_items b' = ''end'') = (align_items b = ''end'')"
    "(flex_wrap b' = ''wrap'') = (flex_wrap b = ''wrap'')"
  using assms by (simp_all add: same_layout_def)

lemma same_layout_justify:
  assumes "same_layout b b'"
  shows "(justify b' = ''end'') = (justify b = ''end'')"
    "(justify b' = ''center'') = (justify b = ''center'')"
    "(justify b' = ''space-between'') = (justify b = ''space-between'')"
    "(justify b' = ''space-around'') = (justify b = ''space-around'')"
    "(justify b' = ''space-evenly'') = (justify b = ''space-evenly'')"
  using assms by (simp_all add: same_layout_def)

lemma transfer_self: "transfer b b = b"
  by (cases b) (simp add: transfer_def)

lemma transfer_transfer: "transfer b2 (transfer b1 b') = transfer b2 b'"
  by (cases b') (simp add: transfer_def)

lemma transfer_set_canvas: "transfer (set_canvas i w ht b1) b' = set_canvas i w ht (transfer b1 b')"
  by (cases b'; cases b1) (simp add: transfer_def)

lemma transfer_set_rendered: "transfer (set_rendered r b1) b' = set_rendered r (transfer b1 b')"
  by (cases b'; cases b1) (simp add: transfer_def)

lemma transfer_set_items: "transfer (set_items its b1) b' = set_items its (transfer b1 b')"
  by (cases b'; cases b1) (simp add: transfer_def)

lemma transfer_of_set_items: "transfer b1 (set_items its b') = transfer b1 b'"
  by (cases b') (simp add: transfer_def)

lemma transfer_id:
  assumes "same_layout b b'"
  shows "transfer b b' = b'"
  using same_layoutD(1-4,7) [OF assms, symmetric] by (cases b') (simp add: transfer_def)

lemma same_layout_transfer:
  assumes "same_layout b b'"
  shows "same_layout (transfer b1 b) (transfer b1 b')"
  using assms by (simp add: same_layout_def sel_transfer)

text \<open>Every step of \<^verbatim>\<open>render\<close> gives the same on two boxes that are laid out alike.\<close>

lemma item_main_cong:
  assumes "same_layout b b'"
  shows "item_main h b' = item_main h b"
  by (simp add: item_main_def fun_eq_iff same_layoutD [OF assms])

lemma item_cross_cong:
  assumes "same_layout b b'"
  shows "item_cross h b' = item_cross h b"
  by (simp add: item_cross_def fun_eq_iff same_layoutD [OF assms])

lemma line_breaking_cong:
  assumes "same_layout b b'"
  shows "line_breaking h b' cm its st = line_breaking h b cm its st"
proof (induction its arbitrary: st)
  case Nil
  show ?case by (cases st) simp
next
  case (Cons it rest)
  obtain lines cl cmn where st: "st = (lines, cl, cmn)" by (cases st) auto
  show ?case
    unfolding st line_breaking.simps Cons.IH item_main_cong [OF assms] same_layoutD [OF assms] ..
qed

lemma break_lines_cong:
  assumes "same_layout b b'"
  shows "break_lines h b' ris = break_lines h b ris"
  unfolding break_lines_def line_breaking_cong [OF assms] same_layoutD [OF assms] ..

lemma total_max_of_cong:
  assumes "same_layout b b'"
  shows "total_max_of h b' ls = total_max_of h b ls"
proof (induction ls)
  case Nil
  show ?case by simp
next
  case (Cons l ls)
  show ?case
    unfolding total_max_of.simps Cons.IH item_cross_cong [OF assms] same_layoutD [OF assms] ..
qed

lemma justify_line_cong:
  assumes "same_layout b b'"
  shows "justify_line h b' line = justify_line h b line"
proof -
  have eq: "justify_line h b' line =
     (let total_main_size = sum_list (map (item_main h b) line);
          num_items = int (length line);
          main_dim = (if direction b = ''row'' then box_width b else box_height b);
          total_gap_space = main_dim - 2 * padding b - total_main_size
      in if justify b' = ''start'' then Inr (padding b, gap b)
         else if justify b = ''end'' then
           Inr (main_dim - padding b - total_main_size - gap b * (num_items - 1), gap b)
         else if justify b = ''center'' then
           Inr (padding b + (total_gap_space - gap b * (num_items - 1)) div 2, gap b)
         else if justify b = ''space-between'' \<and> num_items > 1 then
           Inr (padding b, total_gap_space div (num_items - 1))
         else if justify b = ''space-around'' then
           (if num_items = 0 then Inl (ZeroDivisionError ''integer division or modulo by zero'')
            else Inr (padding b + (total_gap_space div num_items) div 2,
                      total_gap_space div num_items))
         else if justify b = ''space-evenly'' then
           Inr (padding b + total_gap_space div (num_items + 1),
                total_gap_space div (num_items + 1))
         else Inr (padding b, gap b))"
    unfolding justify_line_def item_main_cong [OF assms] same_layoutD [OF assms]
      same_layout_justify [OF assms] ..
  show ?thesis
  proof (cases "justify b' = ''start''")
    case True
    then have "justify b \<noteq> ''end''" "justify b \<noteq> ''center''" "justify b \<noteq> ''space-between''"
      "justify b \<noteq> ''space-around''" "justify b \<noteq> ''space-evenly''"
      using same_layout_justify [OF assms] by simp_all
    then show ?thesis unfolding eq using True by (simp add: justify_line_def Let_def)
  next
    case False
    show ?thesis
    proof (cases "justify b = ''start''")
      case True
      then have "justify b' \<noteq> ''end''" "justify b' \<noteq> ''center''"
        "justify b' \<noteq> ''space-between''" "justify b' \<noteq> ''space-around''"
        "justify b' \<noteq> ''space-evenly''"
        using same_layout_justify [OF assms] by simp_all
      then show ?thesis unfolding eq using True False
        by (simp add: justify_line_def Let_def)
    next
      case nb: False
      show ?thesis unfolding eq using False nb by (simp add: justify_line_def Let_def)
    qed
  qed
qed

lemma paste_line_cong:
  assumes "same_layout b b'"
  shows "paste_line h b' ao cc mc gp line cur = paste_line h b ao cc mc gp line cur"
proof (induction line arbitrary: h cur)
  case Nil
  show ?case by simp
next
  case (Cons a line)
  show ?case
    unfolding paste_line.simps Cons.IH same_layoutD [OF assms] ..
qed

lemma render_lines_cong:
  assumes "same_layout b b'"
  shows "render_lines h b' ao cc ls = render_lines h b ao cc ls"
proof (induction ls arbitrary: h cc)
  case Nil
  show ?case by simp
next
  case (Cons l ls)
  show ?case
    unfolding render_lines.simps Cons.IH item_cross_cong [OF assms] justify_line_cong [OF assms]
      paste_line_cong [OF assms] same_layoutD [OF assms] ..
qed

lemma grow_canvas_shape:
  "grow_canvas h b tm = (r, h1, b1) \<Longrightarrow> \<exists>i w ht. b1 = set_canvas i w ht b"
proof -
  assume a: "grow_canvas h b tm = (r, h1, b1)"
  have self: "b = set_canvas (box_image b) (box_width b) (box_height b) b"
    by (cases b) simp
  show ?thesis
  proof (cases "tm > box_height b")
    case False
    then have "b1 = b" using a by (simp add: grow_canvas_def)
    then show ?thesis using self by metis
  next
    case True
    obtain x h2 where r: "add_padding h (box_image b)
        (tm - (if direction b = ''row'' then box_height b else box_width b) + padding b * 2)
        (if direction b = ''row'' then ''bottom'' else ''right'') = (x, h2)"
      by (cases "add_padding h (box_image b)
        (tm - (if direction b = ''row'' then box_height b else box_width b) + padding b * 2)
        (if direction b = ''row'' then ''bottom'' else ''right'')") auto
    show ?thesis
    proof (cases x)
      case (Inl e)
      then have "b1 = b" using a True r by (simp add: grow_canvas_def)
      then show ?thesis using self by metis
    next
      case (Inr ni)
      then have "b1 = set_canvas ni (width (h2 ! ni)) (height (h2 ! ni)) b"
        using a True r by (auto simp: grow_canvas_def)
      then show ?thesis by blast
    qed
  qed
qed

lemma grow_canvas_cong:
  assumes "same_layout b b'"
  shows "grow_canvas h b' tm =
     (case grow_canvas h b tm of (r, h1, b1) \<Rightarrow> (r, h1, transfer b1 b'))"
proof (cases "tm > box_height b")
  case False
  then show ?thesis
    by (simp add: grow_canvas_def same_layoutD [OF assms] transfer_id [OF assms])
next
  case True
  obtain x h1 where r: "add_padding h (box_image b)
      (tm - (if direction b = ''row'' then box_height b else box_width b) + padding b * 2)
      (if direction b = ''row'' then ''bottom'' else ''right'') = (x, h1)"
    by (cases "add_padding h (box_image b)
      (tm - (if direction b = ''row'' then box_height b else box_width b) + padding b * 2)
      (if direction b = ''row'' then ''bottom'' else ''right'')") auto
  have g: "grow_canvas h b tm =
      (case x of Inl e \<Rightarrow> (Some e, h1, b)
       | Inr new_image \<Rightarrow> (None, h1,
           set_canvas new_image (width (h1 ! new_image)) (height (h1 ! new_image)) b))"
    using True by (simp add: grow_canvas_def r)
  have g': "grow_canvas h b' tm =
      (case x of Inl e \<Rightarrow> (Some e, h1, b')
       | Inr new_image \<Rightarrow> (None, h1,
           set_canvas new_image (width (h1 ! new_image)) (height (h1 ! new_image)) b'))"
    using True unfolding grow_canvas_def same_layoutD [OF assms] by (simp add: r)
  show ?thesis
    unfolding g g'
    by (cases x) (simp_all add: transfer_id [OF assms] transfer_set_canvas)
qed

lemma same_layout_set_canvas:
  assumes "same_layout b b'"
  shows "same_layout (set_canvas i w ht b) (transfer (set_canvas i w ht b) b')"
  using assms by (cases b; cases b') (simp add: same_layout_def transfer_def)

lemma layout_cong:
  assumes "same_layout b b'"
  shows "layout h b' ris = (case layout h b ris of (r, h1, b1) \<Rightarrow> (r, h1, transfer b1 b'))"
proof (cases "total_max_of h b (break_lines h b ris)")
  case (Inl e)
  then show ?thesis
    by (simp add: layout_def break_lines_cong [OF assms] total_max_of_cong [OF assms]
        transfer_id [OF assms])
next
  case (Inr tm)
  obtain r h1 b1 where g: "grow_canvas h b tm = (r, h1, b1)"
    by (cases "grow_canvas h b tm") auto
  have g': "grow_canvas h b' tm = (r, h1, transfer b1 b')"
    by (simp add: grow_canvas_cong [OF assms] g)
  obtain i w ht where b1: "b1 = set_canvas i w ht b"
    using grow_canvas_shape [OF g] by blast
  have sl: "same_layout b1 (transfer b1 b')"
    unfolding b1 by (rule same_layout_set_canvas [OF assms])
  show ?thesis
  proof (cases r)
    case (Some e)
    then show ?thesis
      by (simp add: layout_def break_lines_cong [OF assms] total_max_of_cong [OF assms] Inr g g')
  next
    case None
    obtain r2 h2 where l: "render_lines h1 b1
        ((if direction b1 = ''row'' then box_height b1 else box_width b1) - tm) (padding b1)
        (break_lines h b ris) = (r2, h2)"
      by (cases "render_lines h1 b1
        ((if direction b1 = ''row'' then box_height b1 else box_width b1) - tm) (padding b1)
        (break_lines h b ris)") auto
    have l': "render_lines h1 (transfer b1 b')
        ((if direction (transfer b1 b') = ''row'' then box_height (transfer b1 b')
          else box_width (transfer b1 b')) - tm) (padding (transfer b1 b'))
        (break_lines h b ris) = (r2, h2)"
      unfolding render_lines_cong [OF sl] same_layoutD [OF sl] by (rule l)
    have lay: "layout h b ris =
        (case r2 of Some e \<Rightarrow> (Inl e, h2, b1)
         | None \<Rightarrow> (Inr (box_image b1), h2, set_rendered True b1))"
      by (simp add: layout_def Inr g None l)
    have lay': "layout h b' ris =
        (case r2 of Some e \<Rightarrow> (Inl e, h2, transfer b1 b')
         | None \<Rightarrow> (Inr (box_image (transfer b1 b')), h2, set_rendered True (transfer b1 b')))"
      by (simp add: layout_def break_lines_cong [OF assms] total_max_of_cong [OF assms]
          Inr g' None l')
    show ?thesis
      unfolding lay lay' by (cases r2) (simp_all add: sel_transfer transfer_set_rendered)
  qed
qed

lemma render_cong:
  assumes "same_layout b b'"
  shows "render h b' = (case render h b of (r, h1, b1) \<Rightarrow> (r, h1, transfer b1 b'))"
proof (cases "rendered b \<or> items b = []")
  case True
  then have "render h b = (Inr (box_image b), h, b)"
    using render_rendered render_no_items by blast
  moreover have "render h b' = (Inr (box_image b'), h, b')"
    using True same_layoutD(4,7) [OF assms] render_rendered [of b'] render_no_items [of b']
    by auto
  ultimately show ?thesis
    by (simp add: transfer_id [OF assms] same_layoutD [OF assms])
next
  case False
  obtain r h1 its1 where ri: "render_items h (items b) = (r, h1, its1)"
    by (cases "render_items h (items b)") auto
  have rb: "render h b = (case r of Inl e \<Rightarrow> (Inl e, h1, set_items its1 b)
                          | Inr ris \<Rightarrow> layout h1 (set_items its1 b) ris)"
    using False ri by (cases b; cases r) simp_all
  have rb': "render h b' = (case r of Inl e \<Rightarrow> (Inl e, h1, set_items its1 b')
                          | Inr ris \<Rightarrow> layout h1 (set_items its1 b') ris)"
    using False ri same_layoutD(4,7) [OF assms] by (cases b'; cases r) simp_all
  have sl: "same_layout (set_items its1 b) (set_items its1 b')"
    using assms by (cases b; cases b') (simp add: same_layout_def)
  have t: "set_items its1 b' = transfer (set_items its1 b) b'"
    using same_layoutD(1-4,7) [OF assms, symmetric]
    by (cases b; cases b') (simp add: transfer_def)
  show ?thesis
  proof (cases r)
    case (Inl e)
    then show ?thesis by (simp add: rb rb' t)
  next
    case (Inr ris)
    show ?thesis
      unfolding rb rb' Inr
      by (simp add: layout_cong [OF sl] transfer_of_set_items split: prod.splits)
  qed
qed

text \<open>What \<^verbatim>\<open>render\<close> returns as the box is the box up to the attributes it assigns.\<close>

lemma layout_transfer:
  assumes "layout h b ris = (r, h', b')"
  shows "transfer b' b = b'"
proof (cases "total_max_of h b (break_lines h b ris)")
  case (Inl e)
  then show ?thesis using assms by (auto simp: layout_def transfer_self)
next
  case (Inr tm)
  obtain r1 h1 b1 where g: "grow_canvas h b tm = (r1, h1, b1)"
    by (cases "grow_canvas h b tm") auto
  obtain i w ht where b1: "b1 = set_canvas i w ht b"
    using grow_canvas_shape [OF g] by blast
  have t1: "transfer b1 b = b1"
    unfolding b1 by (simp add: transfer_set_canvas transfer_self)
  have "b' = b1 \<or> b' = set_rendered True b1"
    using assms
    by (cases r1;
        cases "render_lines h1 b1
          ((if direction b1 = ''row'' then box_height b1 else box_width b1) - tm) (padding b1)
          (break_lines h b ris)";
        cases "fst (render_lines h1 b1
          ((if direction b1 = ''row'' then box_height b1 else box_width b1) - tm) (padding b1)
          (break_lines h b ris))")
       (simp_all add: layout_def Inr g)
  then show ?thesis
    using t1 by (auto simp: transfer_set_rendered)
qed

lemma render_transfer:
  assumes "render h b = (r, h', b')"
  shows "transfer b' b = b'"
proof (cases "rendered b \<or> items b = []")
  case True
  then have "render h b = (Inr (box_image b), h, b)"
    using render_rendered render_no_items by blast
  then show ?thesis using assms by (simp add: transfer_self)
next
  case False
  obtain r1 h1 its1 where ri: "render_items h (items b) = (r1, h1, its1)"
    by (cases "render_items h (items b)") auto
  have rb: "render h b = (case r1 of Inl e \<Rightarrow> (Inl e, h1, set_items its1 b)
                          | Inr ris \<Rightarrow> layout h1 (set_items its1 b) ris)"
    using False ri by (cases b; cases r1) simp_all
  show ?thesis
  proof (cases r1)
    case (Inl e)
    then have "b' = set_items its1 b" using assms rb by simp
    then show ?thesis by (simp add: transfer_set_items transfer_self)
  next
    case (Inr ris)
    then have "layout h1 (set_items its1 b) ris = (r, h', b')" using assms rb by simp
    from layout_transfer [OF this] show ?thesis by (simp add: transfer_of_set_items)
  qed
qed

lemma render_set_direction:
  assumes "direction b \<noteq> ''row''"
  shows "render h b = (case render h (set_direction ''column'' b) of
                         (r, h', b') \<Rightarrow> (r, h', set_direction (direction b) b'))"
proof -
  have sl: "same_layout (set_direction ''column'' b) b"
    using assms by (cases b) (simp add: same_layout_def)
  obtain r h1 b1 where rr: "render h (set_direction ''column'' b) = (r, h1, b1)"
    by (cases "render h (set_direction ''column'' b)") auto
  have "transfer b1 (set_direction ''column'' b) = b1"
    by (rule render_transfer [OF rr])
  then have "set_direction (direction b) b1 = transfer b1 b"
    by (cases b; cases b1) (simp add: transfer_def)
  then show ?thesis
    using render_cong [OF sl, of h] rr by simp
qed

lemma render_set_justify:
  assumes "justify b \<notin> set justify_literals"
  shows "render h b = (case render h (set_justify ''start'' b) of
                         (r, h', b') \<Rightarrow> (r, h', set_justify (justify b) b'))"
proof -
  have sl: "same_layout (set_justify ''start'' b) b"
    using assms by (cases b) (simp add: same_layout_def justify_literals_def)
  obtain r h1 b1 where rr: "render h (set_justify ''start'' b) = (r, h1, b1)"
    by (cases "render h (set_justify ''start'' b)") auto
  have "transfer b1 (set_justify ''start'' b) = b1"
    by (rule render_transfer [OF rr])
  then have "set_justify (justify b) b1 = transfer b1 b"
    by (cases b; cases b1) (simp add: transfer_def)
  then show ?thesis
    using render_cong [OF sl, of h] rr by simp
qed

lemma render_set_align_items:
  assumes "align_items b \<noteq> ''center''" and "align_items b \<noteq> ''end''"
  shows "render h b = (case render h (set_align_items ''start'' b) of
                         (r, h', b') \<Rightarrow> (r, h', set_align_items (align_items b) b'))"
proof -
  have sl: "same_layout (set_align_items ''start'' b) b"
    using assms by (cases b) (simp add: same_layout_def)
  obtain r h1 b1 where rr: "render h (set_align_items ''start'' b) = (r, h1, b1)"
    by (cases "render h (set_align_items ''start'' b)") auto
  have "transfer b1 (set_align_items ''start'' b) = b1"
    by (rule render_transfer [OF rr])
  then have "set_align_items (align_items b) b1 = transfer b1 b"
    by (cases b; cases b1) (simp add: transfer_def)
  then show ?thesis
    using render_cong [OF sl, of h] rr by simp
qed

lemma render_set_flex_wrap:
  assumes "flex_wrap b \<noteq> ''wrap''"
  shows "render h b = (case render h (set_flex_wrap ''nowrap'' b) of
                         (r, h', b') \<Rightarrow> (r, h', set_flex_wrap (flex_wrap b) b'))"
proof -
  have sl: "same_layout (set_flex_wrap ''nowrap'' b) b"
    using assms by (cases b) (simp add: same_layout_def)
  obtain r h1 b1 where rr: "render h (set_flex_wrap ''nowrap'' b) = (r, h1, b1)"
    by (cases "render h (set_flex_wrap ''nowrap'' b)") auto
  have "transfer b1 (set_flex_wrap ''nowrap'' b) = b1"
    by (rule render_transfer [OF rr])
  then have "set_flex_wrap (flex_wrap b) b1 = transfer b1 b"
    by (cases b; cases b1) (simp add: transfer_def)
  then show ?thesis
    using render_cong [OF sl, of h] rr by simp
qed

text \<open>
  Claim C10. Two boxes that differ in \<^verbatim>\<open>allow_resize\<close> only are rendered alike: the same
  result or error, the same store, so the same images, and the same final box up to the
  flag itself. \<^verbatim>\<open>add_items\<close> does not read the flag either.
\<close>

theorem allow_resize_unused:
  "render h (set_allow_resize x b) =
     (case render h b of (r, h', b') \<Rightarrow> (r, h', set_allow_resize x b'))
   \<and> add_items (set_allow_resize x b) images =
     (case add_items b images of Inl e \<Rightarrow> Inl e | Inr b' \<Rightarrow> Inr (set_allow_resize x b'))"
proof
  have sl: "same_layout b (set_allow_resize x b)"
    by (cases b) (simp add: same_layout_def)
  obtain r h1 b1 where rr: "render h b = (r, h1, b1)"
    by (cases "render h b") auto
  have "transfer b1 b = b1"
    by (rule render_transfer [OF rr])
  then have "set_allow_resize x b1 = transfer b1 (set_allow_resize x b)"
    by (cases b; cases b1) (simp add: transfer_def)
  then show "render h (set_allow_resize x b) =
     (case render h b of (r, h', b') \<Rightarrow> (r, h', set_allow_resize x b'))"
    using render_cong [OF sl, of h] rr by simp
next
  show "add_items (set_allow_resize x b) images =
     (case add_items b images of Inl e \<Rightarrow> Inl e | Inr b' \<Rightarrow> Inr (set_allow_resize x b'))"
    by (cases b) (simp add: add_items_def)
qed

section \<open>Literals that the code does not know\<close>

text \<open>
  Claim C6, as amended. \<^verbatim>\<open>add_padding\<close> with an edge keyword it does not know raises an
  error that names the keyword, and creates no image. A box is not checked when it is
  made, and \<^verbatim>\<open>render\<close> does not fail on a literal it does not know: a justification
  outside the six literals is laid out as \<open>start\<close>, a direction other than \<open>row\<close> as
  \<open>column\<close>, an alignment other than \<open>center\<close> and \<open>end\<close> as \<open>start\<close>, a wrap mode other
  than \<open>wrap\<close> as \<open>nowrap\<close>; the box keeps the literal it was given.
\<close>

theorem unknown_literals:
  "(t \<notin> set padding_types \<longrightarrow>
      add_padding h im n t = (Inl (ValueError (''Invalid type: '' @ t)), h))
   \<and> (justify b \<notin> set justify_literals \<longrightarrow>
      render h b = (case render h (set_justify ''start'' b) of
                      (r, h', b') \<Rightarrow> (r, h', set_justify (justify b) b')))
   \<and> (direction b \<noteq> ''row'' \<longrightarrow>
      render h b = (case render h (set_direction ''column'' b) of
                      (r, h', b') \<Rightarrow> (r, h', set_direction (direction b) b')))
   \<and> (align_items b \<noteq> ''center'' \<and> align_items b \<noteq> ''end'' \<longrightarrow>
      render h b = (case render h (set_align_items ''start'' b) of
                      (r, h', b') \<Rightarrow> (r, h', set_align_items (align_items b) b')))
   \<and> (flex_wrap b \<noteq> ''wrap'' \<longrightarrow>
      render h b = (case render h (set_flex_wrap ''nowrap'' b) of
                      (r, h', b') \<Rightarrow> (r, h', set_flex_wrap (flex_wrap b) b')))"
proof (intro conjI impI)
  assume "t \<notin> set padding_types"
  then show "add_padding h im n t = (Inl (ValueError (''Invalid type: '' @ t)), h)"
    by (simp add: add_padding_def padding_types_def Let_def)
next
  assume "justify b \<notin> set justify_literals"
  then show "render h b = (case render h (set_justify ''start'' b) of
                      (r, h', b') \<Rightarrow> (r, h', set_justify (justify b) b'))"
    by (rule render_set_justify)
next
  assume "direction b \<noteq> ''row''"
  then show "render h b = (case render h (set_direction ''column'' b) of
                      (r, h', b') \<Rightarrow> (r, h', set_direction (direction b) b'))"
    by (rule render_set_direction)
next
  assume "align_items b \<noteq> ''center'' \<and> align_items b \<noteq> ''end''"
  then show "render h b = (case render h (set_align_items ''start'' b) of
                      (r, h', b') \<Rightarrow> (r, h', set_align_items (align_items b) b'))"
    using render_set_align_items by blast
next
  assume "flex_wrap b \<noteq> ''wrap''"
  then show "render h b = (case render h (set_flex_wrap ''nowrap'' b) of
                      (r, h', b') \<Rightarrow> (r, h', set_flex_wrap (flex_wrap b) b'))"
    by (rule render_set_flex_wrap)
qed

theorem unknown_literals_witness:
  "''corner'' \<notin> set padding_types
   \<and> add_padding [solid 10 10 (0, 0, 0, 0), solid 2 2 (255, 0, 0, 255)] 0 1 ''corner''
       = (Inl (ValueError ''Invalid type: corner''),
          [solid 10 10 (0, 0, 0, 0), solid 2 2 (255, 0, 0, 255)])
   \<and> justify (FlexBox 0 (10, 10) 10 10 [Img 1] 0 0 ''diagonal'' ''spread'' ''middle'' ''maybe''
                True False) \<notin> set justify_literals
   \<and> direction (FlexBox 0 (10, 10) 10 10 [Img 1] 0 0 ''diagonal'' ''spread'' ''middle'' ''maybe''
                True False) \<noteq> ''row''
   \<and> align_items (FlexBox 0 (10, 10) 10 10 [Img 1] 0 0 ''diagonal'' ''spread'' ''middle''
                ''maybe'' True False) \<noteq> ''center''
   \<and> align_items (FlexBox 0 (10, 10) 10 10 [Img 1] 0 0 ''diagonal'' ''spread'' ''middle''
                ''maybe'' True False) \<noteq> ''end''
   \<and> flex_wrap (FlexBox 0 (10, 10) 10 10 [Img 1] 0 0 ''diagonal'' ''spread'' ''middle'' ''maybe''
                True False) \<noteq> ''wrap''
   \<and> render [solid 10 10 (0, 0, 0, 0), solid 2 2 (255, 0, 0, 255)]
        (FlexBox 0 (10, 10) 10 10 [Img 1] 0 0 ''diagonal'' ''spread'' ''middle'' ''maybe''
           True False)
     = (Inr 0, paste [solid 10 10 (0, 0, 0, 0), solid 2 2 (255, 0, 0, 255)] 0 1 (0, 0),
        FlexBox 0 (10, 10) 10 10 [Img 1] 0 0 ''diagonal'' ''spread'' ''middle'' ''maybe''
           True True)
   \<and> render [solid 10 10 (0, 0, 0, 0), solid 2 2 (255, 0, 0, 255)]
        (FlexBox 0 (10, 10) 10 10 [Img 1] 0 0 ''column'' ''spread'' ''middle'' ''maybe''
           True False)
     = (Inr 0, paste [solid 10 10 (0, 0, 0, 0), solid 2 2 (255, 0, 0, 255)] 0 1 (0, 0),
        FlexBox 0 (10, 10) 10 10 [Img 1] 0 0 ''column'' ''spread'' ''middle'' ''maybe''
           True True)"
  using unknown_literals [of "''corner''" "[solid 10 10 (0, 0, 0, 0), solid 2 2 (255, 0, 0, 255)]"
      0 1 "FlexBox 0 (10, 10) 10 10 [Img 1] 0 0 ''diagonal'' ''spread'' ''middle'' ''maybe''
             True False"]
  by (simp add: eval_defs padding_types_def justify_literals_def add_padding_def)

text \<open>
  Claim C6 as stated fails for the literals of a box: a box with a direction, an
  alignment and a wrap mode that the code does not know is made, takes a child and is
  rendered without any error.
\<close>

theorem unknown_literals_counterexample:
  "add_items (FlexBox_init [solid 10 10 (0, 0, 0, 0), solid 2 2 (255, 0, 0, 255)] 0 0 0
                ''diagonal'' ''start'' ''middle'' ''maybe'' True) [Img 1]
     = Inr (FlexBox 0 (10, 10) 10 10 [Img 1] 0 0 ''diagonal'' ''start'' ''middle'' ''maybe''
              True False)
   \<and> render [solid 10 10 (0, 0, 0, 0), solid 2 2 (255, 0, 0, 255)]
      (FlexBox 0 (10, 10) 10 10 [Img 1] 0 0 ''diagonal'' ''start'' ''middle'' ''maybe'' True False)
     = (Inr 0, paste [solid 10 10 (0, 0, 0, 0), solid 2 2 (255, 0, 0, 255)] 0 1 (0, 0),
        FlexBox 0 (10, 10) 10 10 [Img 1] 0 0 ''diagonal'' ''start'' ''middle'' ''maybe'' True True)"
  by (simp add: eval_defs)

section \<open>The images that \<^verbatim>\<open>render\<close> leaves alone\<close>

lemma paste_length: "length (paste h self im box) = length h"
  by (simp add: paste_def)

lemma paste_other: "a \<noteq> self \<Longrightarrow> paste h self im box ! a = h ! a"
  by (simp add: paste_def)

lemma paste_line_frame:
  "length (paste_line h b ao cc mc gp line cur) = length h
   \<and> (a \<noteq> box_image b \<longrightarrow> paste_line h b ao cc mc gp line cur ! a = h ! a)"
proof (induction line arbitrary: h cur)
  case Nil
  show ?case by simp
next
  case (Cons it line)
  show ?case
    by (simp add: Let_def Cons.IH paste_length paste_other)
qed

lemma render_lines_frame:
  "render_lines h b ao cc ls = (r, h') \<Longrightarrow>
   length h' = length h \<and> (a \<noteq> box_image b \<longrightarrow> h' ! a = h ! a)"
proof (induction ls arbitrary: h cc)
  case Nil
  then show ?case by simp
next
  case (Cons l ls)
  show ?case
  proof (cases "py_max (map (item_cross h b) l)")
    case (Inl e)
    then show ?thesis using Cons.prems by simp
  next
    case (Inr mc)
    show ?thesis
    proof (cases "justify_line h b l")
      case (Inl e)
      then show ?thesis using Cons.prems Inr by simp
    next
      case jl: (Inr p)
      obtain cur gp where p: "p = (cur, gp)" by (cases p) auto
      have "render_lines (paste_line h b ao cc mc gp l cur) b ao (cc + (mc + gap b)) ls = (r, h')"
        using Cons.prems Inr jl p by simp
      from Cons.IH [OF this] show ?thesis
        using paste_line_frame [of h b ao cc mc gp l cur a] by simp
    qed
  qed
qed

lemma new_and_paste_frame:
  "new_and_paste h im sz c box = (x, h1) \<Longrightarrow>
   length h \<le> length h1 \<and> (\<forall>a<length h. h1 ! a = h ! a) \<and> (\<forall>ni. x = Inr ni \<longrightarrow> ni = length h)"
  by (cases sz)
     (auto simp: new_and_paste_def Image_new_def paste_def nth_append split: if_splits)

lemma add_padding_frame:
  assumes "add_padding h im n t = (x, h1)"
  shows "length h \<le> length h1 \<and> (\<forall>a<length h. h1 ! a = h ! a)
         \<and> (\<forall>ni. x = Inr ni \<longrightarrow> ni = length h)"
proof (cases "t \<in> set padding_types")
  case False
  then have "add_padding h im n t = (Inl (ValueError (''Invalid type: '' @ t)), h)"
    by (simp add: add_padding_def padding_types_def Let_def)
  then show ?thesis using assms by auto
next
  case True
  then have "t = ''all'' \<or> t = ''left'' \<or> t = ''right'' \<or> t = ''top'' \<or> t = ''bottom''
        \<or> t = ''x'' \<or> t = ''y''"
    by (simp add: padding_types_def)
  then show ?thesis
    using assms
    apply (elim disjE)
          apply (simp_all add: add_padding_def Let_def)
          apply (drule new_and_paste_frame, simp)+
    done
qed

lemma grow_canvas_frame:
  assumes "grow_canvas h b tm = (r, h1, b1)"
  shows "length h \<le> length h1 \<and> (\<forall>a<length h. h1 ! a = h ! a)
         \<and> (box_image b1 = box_image b \<or> length h \<le> box_image b1)"
proof (cases "tm > box_height b")
  case False
  then show ?thesis using assms by (simp add: grow_canvas_def)
next
  case True
  obtain x h2 where ap: "add_padding h (box_image b)
      (tm - (if direction b = ''row'' then box_height b else box_width b) + padding b * 2)
      (if direction b = ''row'' then ''bottom'' else ''right'') = (x, h2)"
    by (cases "add_padding h (box_image b)
      (tm - (if direction b = ''row'' then box_height b else box_width b) + padding b * 2)
      (if direction b = ''row'' then ''bottom'' else ''right'')") auto
  note fr = add_padding_frame [OF ap]
  show ?thesis
  proof (cases x)
    case (Inl e)
    then have "h1 = h2" "b1 = b" using assms True ap by (simp_all add: grow_canvas_def)
    then show ?thesis using fr by simp
  next
    case (Inr ni)
    then have "h1 = h2" "b1 = set_canvas ni (width (h2 ! ni)) (height (h2 ! ni)) b"
      using assms True ap by (auto simp: grow_canvas_def)
    moreover have "ni = length h" using fr Inr by simp
    ultimately show ?thesis using fr by (cases b) simp
  qed
qed

lemma layout_frame:
  assumes "layout h b ris = (r, h', b')"
  shows "length h \<le> length h' \<and> (\<forall>a<length h. a \<noteq> box_image b \<longrightarrow> h' ! a = h ! a)"
proof (cases "total_max_of h b (break_lines h b ris)")
  case (Inl e)
  then show ?thesis using assms by (simp add: layout_def)
next
  case (Inr tm)
  obtain r1 h1 b1 where g: "grow_canvas h b tm = (r1, h1, b1)"
    by (cases "grow_canvas h b tm") auto
  note fr = grow_canvas_frame [OF g]
  show ?thesis
  proof (cases r1)
    case (Some e)
    then have "h' = h1" using assms Inr g by (simp add: layout_def)
    then show ?thesis using fr by simp
  next
    case None
    obtain r2 h2 where l: "render_lines h1 b1
        ((if direction b1 = ''row'' then box_height b1 else box_width b1) - tm) (padding b1)
        (break_lines h b ris) = (r2, h2)"
      by (cases "render_lines h1 b1
        ((if direction b1 = ''row'' then box_height b1 else box_width b1) - tm) (padding b1)
        (break_lines h b ris)") auto
    have h': "h' = h2"
      using assms Inr g None l by (cases r2) (simp_all add: layout_def)
    have len: "length h2 = length h1"
      using render_lines_frame [OF l] by simp
    have "h2 ! a = h ! a" if a: "a < length h" "a \<noteq> box_image b" for a
    proof -
      have "a \<noteq> box_image b1" using fr a by auto
      then have "h2 ! a = h1 ! a" using render_lines_frame [OF l, of a] by simp
      then show ?thesis using fr a by simp
    qed
    then show ?thesis using h' len fr by simp
  qed
qed

lemma render_frame_both:
  "render h b = (r, h', b') \<Longrightarrow>
     length h \<le> length h' \<and> (\<forall>a<length h. a \<notin> set (canvases b) \<longrightarrow> h' ! a = h ! a)"
  "render_items h its = (rs, h'', its') \<Longrightarrow>
     length h \<le> length h''
     \<and> (\<forall>a<length h. a \<notin> set (concat (map item_canvases its)) \<longrightarrow> h'' ! a = h ! a)"
proof (induction h b and h its arbitrary: r h' b' and rs h'' its'
       rule: render_render_items.induct)
  case (1 h im sz w ht its pad gp dir js al fw ar rd)
  show ?case
  proof (cases "rd \<or> its = []")
    case True
    then have "render h (FlexBox im sz w ht its pad gp dir js al fw ar rd) =
        (Inr im, h, FlexBox im sz w ht its pad gp dir js al fw ar rd)"
      by (cases rd) simp_all
    then show ?thesis using "1.prems" by simp
  next
    case False
    obtain x h1 its1 where ri: "render_items h its = (x, h1, its1)"
      by (cases "render_items h its") auto
    have fr1: "length h \<le> length h1
       \<and> (\<forall>a<length h. a \<notin> set (concat (map item_canvases its)) \<longrightarrow> h1 ! a = h ! a)"
      using "1.IH" [OF _ _ ri] False by simp
    show ?thesis
    proof (cases x)
      case (Inl e)
      then have "h' = h1" using "1.prems" False ri by simp
      then show ?thesis using fr1 by simp
    next
      case (Inr ris)
      then have "layout h1 (FlexBox im sz w ht its1 pad gp dir js al fw ar rd) ris = (r, h', b')"
        using "1.prems" False ri by simp
      from layout_frame [OF this]
      have fr2: "length h1 \<le> length h'" "\<forall>a<length h1. a \<noteq> im \<longrightarrow> h' ! a = h1 ! a"
        by simp_all
      show ?thesis using fr1 fr2 by auto
    qed
  qed
next
  case (2 h)
  then show ?case by simp
next
  case (3 h a rest)
  obtain x h1 rest1 where ri: "render_items h rest = (x, h1, rest1)"
    by (cases "render_items h rest") auto
  have "h'' = h1" using "3.prems" ri by (cases x) simp_all
  then show ?case using "3.IH" [OF ri] by simp
next
  case (4 h b rest)
  obtain x h1 b1 where rb: "render h b = (x, h1, b1)"
    by (cases "render h b") auto
  note fr1 = "4.IH"(1) [OF rb]
  show ?case
  proof (cases x)
    case (Inl e)
    then have "h'' = h1" using "4.prems" rb by simp
    then show ?thesis using fr1 by simp
  next
    case (Inr c)
    obtain y h2 rest1 where ri: "render_items h1 rest = (y, h2, rest1)"
      by (cases "render_items h1 rest") auto
    have "h'' = h2" using "4.prems" rb Inr ri by (cases y) simp_all
    moreover have "(Inr c, h1, b1) = render h b" using rb Inr by simp
    note fr2 = "4.IH"(2) [OF this refl refl ri]
    ultimately show ?thesis using fr1 fr2 by auto
  qed
qed

text \<open>
  Claim C8, as amended. The pastes of a box change no image but the canvas of that box:
  once the nested boxes are rendered, every image that the box pastes, a child image or
  the canvas that a nested box returned, is after the call what it was then, unless it is
  the canvas of the box itself. Over the whole call, which renders the nested boxes
  first, every image that is not the canvas of the box or of a box nested in it has
  the same width, height and pixels before and after, and no image is removed.
\<close>

theorem render_frame:
  "(render h b = (r, h', b') \<and> a < length h \<and> a \<notin> set (canvases b) \<longrightarrow>
      length h \<le> length h' \<and> h' ! a = h ! a
      \<and> width (h' ! a) = width (h ! a) \<and> height (h' ! a) = height (h ! a)
      \<and> pix (h' ! a) = pix (h ! a))
   \<and> (\<not> rendered b \<and> items b \<noteq> [] \<and> render_items h (items b) = (Inr ris, h1, its1)
      \<and> render h b = (r, h', b') \<and> c < length h1 \<and> c \<noteq> box_image b \<longrightarrow>
      length h1 \<le> length h' \<and> h' ! c = h1 ! c
      \<and> width (h' ! c) = width (h1 ! c) \<and> height (h' ! c) = height (h1 ! c)
      \<and> pix (h' ! c) = pix (h1 ! c))"
proof (rule conjI; rule impI)
  assume "render h b = (r, h', b') \<and> a < length h \<and> a \<notin> set (canvases b)"
  then show "length h \<le> length h' \<and> h' ! a = h ! a
      \<and> width (h' ! a) = width (h ! a) \<and> height (h' ! a) = height (h ! a)
      \<and> pix (h' ! a) = pix (h ! a)"
    using render_frame_both(1) [of h b r h' b'] by simp
next
  assume a: "\<not> rendered b \<and> items b \<noteq> [] \<and> render_items h (items b) = (Inr ris, h1, its1)
      \<and> render h b = (r, h', b') \<and> c < length h1 \<and> c \<noteq> box_image b"
  then have "render h b = layout h1 (set_items its1 b) ris"
    by (cases b) simp
  with a have "layout h1 (set_items its1 b) ris = (r, h', b')" by simp
  from layout_frame [OF this] a
  show "length h1 \<le> length h' \<and> h' ! c = h1 ! c
      \<and> width (h' ! c) = width (h1 ! c) \<and> height (h' ! c) = height (h1 ! c)
      \<and> pix (h' ! c) = pix (h1 ! c)"
    by (cases b) simp
qed

theorem render_frame_witness:
  "fst (render nested_store (nested_outer 2)) = Inr 0
   \<and> 2 < length nested_store
   \<and> 2 \<notin> set (canvases (nested_outer 2))
   \<and> fst (snd (render nested_store (nested_outer 2))) ! 2 = nested_store ! 2
   \<and> \<not> rendered (nested_outer 2)
   \<and> items (nested_outer 2) \<noteq> []
   \<and> render_items nested_store (items (nested_outer 2))
       = (Inr [1, 2], paste nested_store 1 2 (0, 0), [Sub (nested_inner True), Img 2])
   \<and> 1 < length (paste nested_store 1 2 (0, 0))
   \<and> 1 \<noteq> box_image (nested_outer 2)
   \<and> fst (snd (render nested_store (nested_outer 2))) ! 1 = paste nested_store 1 2 (0, 0) ! 1"
proof -
  have rr: "fst (render nested_store (nested_outer 2)) = Inr 0"
    by (simp add: nested_store_def nested_outer_def nested_inner_def eval_defs paste_def
        paste_image_def)
  have ri: "render_items nested_store (items (nested_outer 2))
       = (Inr [1, 2], paste nested_store 1 2 (0, 0), [Sub (nested_inner True), Img 2])"
    by (simp add: nested_store_def nested_outer_def nested_inner_def eval_defs)
  have len: "length nested_store = 3"
    by (simp add: nested_store_def)
  have box: "canvases (nested_outer 2) = [0, 1]" "\<not> rendered (nested_outer 2)"
    "items (nested_outer 2) \<noteq> []" "box_image (nested_outer 2) = 0"
    by (simp_all add: nested_outer_def nested_inner_def)
  from render_frame [of nested_store "nested_outer 2"
      "fst (render nested_store (nested_outer 2))"
      "fst (snd (render nested_store (nested_outer 2)))"
      "snd (snd (render nested_store (nested_outer 2)))"
      2 "[1, 2]" "paste nested_store 1 2 (0, 0)" "[Sub (nested_inner True), Img 2]" 1]
  have "2 < length nested_store
   \<and> 2 \<notin> set (canvases (nested_outer 2))
   \<and> fst (snd (render nested_store (nested_outer 2))) ! 2 = nested_store ! 2
   \<and> \<not> rendered (nested_outer 2)
   \<and> items (nested_outer 2) \<noteq> []
   \<and> render_items nested_store (items (nested_outer 2))
       = (Inr [1, 2], paste nested_store 1 2 (0, 0), [Sub (nested_inner True), Img 2])
   \<and> 1 < length (paste nested_store 1 2 (0, 0))
   \<and> 1 \<noteq> box_image (nested_outer 2)
   \<and> fst (snd (render nested_store (nested_outer 2))) ! 1 = paste nested_store 1 2 (0, 0) ! 1"
    by (simp add: ri len box paste_length)
  with rr show ?thesis by (rule conjI)
qed

text \<open>
  Claim C8 as stated fails for a child image that is also the canvas of a nested box:
  the nested box pastes its own child onto it during the call, so the image that the
  outer box pastes as its second child is not what it was before the call.
\<close>

theorem render_changes_child_image:
  "Img 1 \<in> set (items (nested_outer 1))
   \<and> fst (render nested_store (nested_outer 1)) = Inr 0
   \<and> pix (nested_store ! 1) 0 0 = (0, 0, 0, 0)
   \<and> pix (fst (snd (render nested_store (nested_outer 1))) ! 1) 0 0 = (255, 0, 0, 255)"
  by (simp add: nested_store_def nested_outer_def nested_inner_def eval_defs paste_def
      paste_image_def blend8_255)

end
